theory Spec2Isabelle
  imports Complex_Main "HOL-Library.Word"
begin

section \<open>JavaScript numbers\<close>

text \<open>
  The program is TypeScript; every \<open>number\<close> is an IEEE double. The model keeps the
  special values of a double that the code can produce (\<open>NaN\<close> from a read of
  \<open>undefined\<close>, the infinities from a division by zero) and takes the finite values as
  real numbers. Rounding is not modelled: the pixel differences and their sums are
  integers far below \<open>2^53\<close>, which doubles hold exactly, and so are the quotients
  \<open>0 / m\<close> and \<open>m / m\<close>; any other quotient \<open>d / m\<close> of the match is the real one,
  which the double approximates. The sign of zero is not modelled: every zero the code
  divides by is a product or a sum of non-negative numbers.
\<close>

datatype jsnum = NaN | NInf | Fin real | PInf

fun js_neg :: "jsnum \<Rightarrow> jsnum" where
  "js_neg NaN = NaN"
| "js_neg NInf = PInf"
| "js_neg PInf = NInf"
| "js_neg (Fin a) = Fin (- a)"

fun js_add :: "jsnum \<Rightarrow> jsnum \<Rightarrow> jsnum" where
  "js_add NaN _ = NaN"
| "js_add _ NaN = NaN"
| "js_add PInf NInf = NaN"
| "js_add NInf PInf = NaN"
| "js_add PInf _ = PInf"
| "js_add _ PInf = PInf"
| "js_add NInf _ = NInf"
| "js_add _ NInf = NInf"
| "js_add (Fin a) (Fin b) = Fin (a + b)"

definition js_sub :: "jsnum \<Rightarrow> jsnum \<Rightarrow> jsnum" where
  "js_sub a b = js_add a (js_neg b)"

text \<open>The sign of a number that is not \<open>NaN\<close>: \<open>-1\<close>, \<open>0\<close> or \<open>1\<close>.\<close>

fun js_sgn :: "jsnum \<Rightarrow> int" where
  "js_sgn NaN = 0"
| "js_sgn NInf = - 1"
| "js_sgn PInf = 1"
| "js_sgn (Fin a) = (if a < 0 then - 1 else if a = 0 then 0 else 1)"

definition js_signed_inf :: "int \<Rightarrow> jsnum" where
  "js_signed_inf k = (if k < 0 then NInf else if k = 0 then NaN else PInf)"

fun js_mul :: "jsnum \<Rightarrow> jsnum \<Rightarrow> jsnum" where
  "js_mul NaN _ = NaN"
| "js_mul _ NaN = NaN"
| "js_mul (Fin a) (Fin b) = Fin (a * b)"
| "js_mul a b = js_signed_inf (js_sgn a * js_sgn b)"

fun js_div :: "jsnum \<Rightarrow> jsnum \<Rightarrow> jsnum" where
  "js_div NaN _ = NaN"
| "js_div _ NaN = NaN"
| "js_div (Fin a) (Fin b) = (if b = 0 then js_signed_inf (js_sgn (Fin a)) else Fin (a / b))"
| "js_div (Fin a) _ = Fin 0"
| "js_div a (Fin b) = js_signed_inf (js_sgn a * (if b < 0 then - 1 else 1))"
| "js_div _ _ = NaN"

fun js_abs :: "jsnum \<Rightarrow> jsnum" where
  "js_abs NaN = NaN"
| "js_abs NInf = PInf"
| "js_abs PInf = PInf"
| "js_abs (Fin a) = Fin \<bar>a\<bar>"

text \<open>\<open>a > b\<close> and \<open>a >= b\<close>: false as soon as one side is \<open>NaN\<close>.\<close>

fun js_gt :: "jsnum \<Rightarrow> jsnum \<Rightarrow> bool" where
  "js_gt NaN _ = False"
| "js_gt _ NaN = False"
| "js_gt NInf _ = False"
| "js_gt _ NInf = True"
| "js_gt _ PInf = False"
| "js_gt PInf _ = True"
| "js_gt (Fin a) (Fin b) = (b < a)"

fun js_ge :: "jsnum \<Rightarrow> jsnum \<Rightarrow> bool" where
  "js_ge NaN _ = False"
| "js_ge _ NaN = False"
| "js_ge a b = (a = b \<or> js_gt a b)"

text \<open>
  \<open>ToNumber\<close> of the result of a function that may return nothing: \<open>undefined\<close>
  converts to \<open>NaN\<close>.
\<close>

fun ToNumber :: "jsnum option \<Rightarrow> jsnum" where
  "ToNumber None = NaN"
| "ToNumber (Some a) = a"

section \<open>Pixel buffers\<close>

text \<open>
  The \<open>data\<close> of an \<open>ImageData\<close> is a \<open>Uint8ClampedArray\<close>: a flat array of bytes,
  four per pixel (red, green, blue, alpha). A read past the end gives \<open>undefined\<close>,
  which the subtraction it feeds turns into \<open>NaN\<close>; a write past the end is ignored,
  as \<open>xs[i := v]\<close> does. A number stored in the array is converted by \<open>ToUint8Clamp\<close>:
  clamped to \<open>[0, 255]\<close> and rounded to the nearest integer, a tie going to the even
  one.
\<close>

type_synonym byte = "8 word"

definition byteAt :: "byte list \<Rightarrow> nat \<Rightarrow> jsnum" where
  "byteAt xs i = (if i < length xs then Fin (real (unat (xs ! i))) else NaN)"

definition roundHalfEven :: "real \<Rightarrow> int" where
  "roundHalfEven r =
     (let f = \<lfloor>r\<rfloor> in
      if real_of_int f + 1 / 2 < r then f + 1
      else if r < real_of_int f + 1 / 2 then f
      else if even f then f else f + 1)"

fun ToUint8Clamp :: "jsnum \<Rightarrow> byte" where
  "ToUint8Clamp NaN = 0"
| "ToUint8Clamp NInf = 0"
| "ToUint8Clamp PInf = 255"
| "ToUint8Clamp (Fin r) =
     (if r \<le> 0 then 0 else if 255 \<le> r then 255 else word_of_int (roundHalfEven r))"

section \<open>The difference scorer\<close>

text \<open>
  The loop of \<open>calculateDifference\<close> (lines 165 to 177): \<open>i\<close> runs over the canvas
  data in steps of four, \<open>difference\<close> accumulates the channel differences and \<open>dat\<close>
  is the data of the graph being written.
\<close>

function differenceLoop ::
  "byte list \<Rightarrow> byte list \<Rightarrow> nat \<Rightarrow> jsnum \<Rightarrow> byte list \<Rightarrow> jsnum \<times> byte list" where
  "differenceLoop imageData canvasData i difference dat =
     (if i < length canvasData then
        (let differenceR = js_abs (js_sub (byteAt imageData i) (byteAt canvasData i));
             differenceG = js_abs (js_sub (byteAt imageData (i + 1)) (byteAt canvasData (i + 1)));
             differenceB = js_abs (js_sub (byteAt imageData (i + 2)) (byteAt canvasData (i + 2)));
             dat1 = dat[i := 0];
             dat2 = dat1[i + 1 := 0];
             dat3 = dat2[i + 2 := 0];
             dat4 = dat3[i + 3 := ToUint8Clamp
                      (js_mul (js_div (Fin 1) (Fin 3))
                        (js_add (js_sub (js_sub (js_neg differenceR) differenceG) differenceB)
                                (Fin 765)))]
         in differenceLoop imageData canvasData (i + 4)
              (js_add difference (js_add (js_add differenceR differenceG) differenceB)) dat4)
      else (difference, dat))"
  by pat_completeness auto
termination
  by (relation "measure (\<lambda>(imageData, canvasData, i, difference, dat). length canvasData - i)") auto

declare differenceLoop.simps [simp del]

text \<open>
  \<open>calculateDifference\<close>: \<open>imageData\<close> is the target, \<open>canvasData\<close> what
  \<open>getImageData\<close> returns for the stage canvas and \<open>graphData\<close> what it returns for
  the graph. The result is the returned value (\<open>None\<close> for the \<open>return;\<close> of line 157,
  which returns \<open>undefined\<close>) and the image given to \<open>putImageData\<close>, if the call is
  reached.
\<close>

definition calculateDifference ::
  "byte list \<Rightarrow> byte list \<Rightarrow> byte list \<Rightarrow> jsnum option \<times> byte list option" where
  "calculateDifference imageData canvasData graphData =
     (if length imageData \<noteq> length canvasData then (None, None)
      else (let (difference, dat) = differenceLoop imageData canvasData 0 (Fin 0) graphData
            in (Some difference, Some dat)))"

text \<open>
  \<open>getMatch\<close> (lines 145 to 149), with the image \<open>calculateDifference\<close> put on the
  graph.
\<close>

definition getMatch ::
  "byte list \<Rightarrow> jsnum \<Rightarrow> byte list \<Rightarrow> byte list \<Rightarrow> jsnum \<times> byte list option" where
  "getMatch imageData maxDifference canvasData graphData =
     (let (diff, put) = calculateDifference imageData canvasData graphData
      in (js_mul (Fin 100) (js_sub (Fin 1) (js_div (ToNumber diff) maxDifference)), put))"

section \<open>Polygons\<close>

text \<open>
  The class \<open>Polygon\<close> lives in \<open>./polygon\<close>. \<open>drawFrame\<close> uses three of its methods,
  which the optimizer takes here as parameters, over any type \<open>'p\<close> of polygons: what
  is proved of \<open>drawFrame\<close> holds for every implementation of them. \<open>mutate\<close> draws
  random numbers; the numbers drawn in one call are its first argument.
\<close>

record ('p, 'r) PolygonOps =
  stash :: "'p \<Rightarrow> 'p"
  mutate :: "'r \<Rightarrow> nat \<Rightarrow> nat \<Rightarrow> 'p \<Rightarrow> 'p"
  pop :: "'p \<Rightarrow> 'p"

text \<open>
  Modelled from the spec: the types \<open>Point\<close> and \<open>RGBA\<close> of \<open>./interface\<close> and
  the fields of the class \<open>Polygon\<close> of \<open>./polygon\<close>, which are not among the sources.
  A point is a pair of non-negative integers, a colour has red, green and blue and an
  alpha, and a polygon is an ordered list of points and a colour, with at most one
  stashed snapshot. \<open>Mutation\<close> is what one call of \<open>mutate\<close> draws: a vertex to
  replace and its new point, or a new colour.
\<close>

type_synonym Point = "nat \<times> nat"

type_synonym RGBA = "nat \<times> nat \<times> nat \<times> real"

record Polygon =
  points :: "Point list"
  colour :: RGBA
  stashed :: "(Point list \<times> RGBA) option"

datatype Mutation = ReplaceVertex nat Point | ReplaceColour RGBA

text \<open>
  Modelled from the spec: the methods \<open>stash\<close>, \<open>mutate\<close> and \<open>pop\<close> of the class
  \<open>Polygon\<close>, absent like the class. \<open>stash\<close> copies points and colour into the
  snapshot, \<open>mutate\<close> replaces one vertex or the colour, \<open>pop\<close> restores the snapshot
  (and does nothing when there is none, one of the two behaviours the specification
  allows). The theorems on \<open>drawFrame\<close> do not depend on them; the small run below
  uses them.
\<close>

definition stashPolygon :: "Polygon \<Rightarrow> Polygon" where
  "stashPolygon p = p\<lparr>stashed := Some (points p, colour p)\<rparr>"

fun mutatePolygon :: "Mutation \<Rightarrow> nat \<Rightarrow> nat \<Rightarrow> Polygon \<Rightarrow> Polygon" where
  "mutatePolygon (ReplaceVertex k pt) maxX maxY p = p\<lparr>points := (points p)[k := pt]\<rparr>"
| "mutatePolygon (ReplaceColour c) maxX maxY p = p\<lparr>colour := c\<rparr>"

definition popPolygon :: "Polygon \<Rightarrow> Polygon" where
  "popPolygon p =
     (case stashed p of None \<Rightarrow> p | Some (ps, c) \<Rightarrow> p\<lparr>points := ps, colour := c\<rparr>)"

definition polygonOps :: "(Polygon, Mutation) PolygonOps" where
  "polygonOps = \<lparr>stash = stashPolygon, mutate = mutatePolygon, pop = popPolygon\<rparr>"

section \<open>The optimizer\<close>

text \<open>
  The fields of the class \<open>Fractal\<close>. \<open>width\<close> and \<open>height\<close> are those of the stage
  canvas; \<open>graph\<close> is the image last put on the graph canvas. The statistics shown in
  the page are the values given to \<open>setStat\<close>, by key; the text formatting of the match
  (\<open>toFixed(4)\<close>) is not modelled, and the three elements of the page are taken to
  exist. The counters and the cursor are non-negative integers.
\<close>

datatype stat = Match | Break | Mutations

datatype shown = ShownNumber nat | ShownPercent jsnum

record 'p Fractal =
  POLYGON_COUNT :: nat
  POLYGON_VERTICES :: nat
  width :: nat
  height :: nat
  polygons :: "'p list"
  nextMutable :: nat
  imageData :: "byte list"
  lastMatch :: jsnum
  maxDifference :: jsnum
  stats :: "stat \<Rightarrow> shown option"
  mutations :: nat
  breakthroughs :: nat
  graph :: "byte list"

text \<open>
  What one call of \<open>drawFrame\<close> receives from outside: the random numbers \<open>mutate\<close>
  draws, the data \<open>getImageData\<close> returns for the stage once the polygons are drawn
  (the canvas does the rasterization), and the data it returns for the graph. Both
  are taken as the browser gives them, of any length and content.
\<close>

record 'r FrameInput =
  random :: 'r
  stageData :: "byte list"
  graphImage :: "byte list"

datatype error = TypeError

text \<open>
  The constructor (lines 22 to 33). The fields it leaves unassigned (the canvas, the
  target data) are empty here; \<open>main\<close> assigns them before the first round.
\<close>

definition newFractal :: "nat \<Rightarrow> nat \<Rightarrow> 'p Fractal" where
  "newFractal polys vertices =
     \<lparr>POLYGON_COUNT = polys, POLYGON_VERTICES = vertices, width = 0, height = 0,
      polygons = [], nextMutable = 0, imageData = [], lastMatch = Fin 0,
      maxDifference = Fin 1, stats = Map.empty, mutations = 0, breakthroughs = 0,
      graph = []\<rparr>"

definition setStat :: "stat \<Rightarrow> shown \<Rightarrow> 'p Fractal \<Rightarrow> 'p Fractal" where
  "setStat st val s = s\<lparr>stats := (stats s)(st \<mapsto> val)\<rparr>"

text \<open>
  \<open>getImageData\<close> (lines 134 to 143) stores the data of the target image;
  \<open>configureDom\<close> (lines 109 to 116) gives both canvases the size of the image, which
  clears them, and sets \<open>maxDifference\<close>; \<open>generateInitialPolygons\<close> (lines 50 to 57)
  builds \<open>POLYGON_COUNT\<close> polygons, \<open>gen k\<close> being the random polygon built for
  position \<open>k\<close>; \<open>main\<close> (lines 41 to 48) runs them in this order and starts the
  timer.
\<close>

definition getImageData :: "byte list \<Rightarrow> 'p Fractal \<Rightarrow> 'p Fractal" where
  "getImageData imgData s = s\<lparr>imageData := imgData\<rparr>"

definition configureDom :: "nat \<Rightarrow> nat \<Rightarrow> 'p Fractal \<Rightarrow> 'p Fractal" where
  "configureDom imgWidth imgHeight s =
     s\<lparr>width := imgWidth, height := imgHeight,
       graph := replicate (imgWidth * imgHeight * 4) 0,
       maxDifference := Fin (real (imgWidth * imgHeight * 3 * 255))\<rparr>"

definition generateInitialPolygons :: "(nat \<Rightarrow> 'p) \<Rightarrow> 'p Fractal \<Rightarrow> 'p list" where
  "generateInitialPolygons gen s = map gen [0..<POLYGON_COUNT s]"

definition main :: "(nat \<Rightarrow> 'p) \<Rightarrow> nat \<Rightarrow> nat \<Rightarrow> 'p Fractal \<Rightarrow> 'p Fractal" where
  "main gen imgWidth imgHeight s =
     (let s1 = configureDom imgWidth imgHeight s
      in s1\<lparr>polygons := generateInitialPolygons gen s1\<rparr>)"

text \<open>
  \<open>drawFrame\<close> (lines 59 to 90), one round. When the cursor selects no polygon,
  \<open>poly\<close> is \<open>undefined\<close> and \<open>poly.stash()\<close> throws a \<open>TypeError\<close> before any field
  is assigned.
\<close>

definition drawFrame ::
  "('p, 'r) PolygonOps \<Rightarrow> 'r FrameInput \<Rightarrow> 'p Fractal \<Rightarrow> error + 'p Fractal" where
  "drawFrame P inp s =
     (if nextMutable s < length (polygons s) then
        (let i = nextMutable s;
             poly = mutate P (random inp) (width s) (height s) (stash P (polygons s ! i));
             s1 = s\<lparr>polygons := (polygons s)[i := poly]\<rparr>;
             (match, put) = getMatch (imageData s1) (maxDifference s1)
                              (stageData inp) (graphImage inp);
             s2 = (case put of None \<Rightarrow> s1 | Some dat \<Rightarrow> s1\<lparr>graph := dat\<rparr>);
             s3 = (if js_gt match (lastMatch s2) then
                     setStat Match (ShownPercent match)
                       (setStat Break (ShownNumber (breakthroughs s2))
                          (s2\<lparr>lastMatch := match, breakthroughs := breakthroughs s2 + 1\<rparr>))
                   else s2\<lparr>polygons := (polygons s2)[i := pop P poly]\<rparr>);
             s4 = setStat Mutations (ShownNumber (mutations s3))
                    (s3\<lparr>mutations := mutations s3 + 1\<rparr>);
             s5 = (if nextMutable s4 + 1 \<ge> POLYGON_COUNT s4 then s4\<lparr>nextMutable := 0\<rparr>
                   else s4\<lparr>nextMutable := nextMutable s4 + 1\<rparr>)
         in Inr s5)
      else Inl TypeError)"

text \<open>
  The timer of \<open>main\<close> calls \<open>drawFrame\<close> again and again, a call that throws
  included: the exception ends that call only, and leaves the fields as they were.
  \<open>afterFrame\<close> is the state after one call, \<open>run\<close> the states after each call of a
  sequence.
\<close>

definition afterFrame :: "('p, 'r) PolygonOps \<Rightarrow> 'r FrameInput \<Rightarrow> 'p Fractal \<Rightarrow> 'p Fractal" where
  "afterFrame P inp s = (case drawFrame P inp s of Inl e \<Rightarrow> s | Inr s' \<Rightarrow> s')"

fun run :: "('p, 'r) PolygonOps \<Rightarrow> 'p Fractal \<Rightarrow> 'r FrameInput list \<Rightarrow> 'p Fractal list" where
  "run P s [] = []"
| "run P s (inp # inps) = afterFrame P inp s # run P (afterFrame P inp s) inps"

text \<open>
  Names for two expressions of \<open>drawFrame\<close>: the polygon at the cursor once stashed
  and mutated (lines 64 to 66), and the match computed for the round (line 73).
\<close>

definition mutated :: "('p, 'r) PolygonOps \<Rightarrow> 'r FrameInput \<Rightarrow> 'p Fractal \<Rightarrow> 'p" where
  "mutated P inp s =
     mutate P (random inp) (width s) (height s) (stash P (polygons s ! nextMutable s))"

definition newMatch :: "'r FrameInput \<Rightarrow> 'p Fractal \<Rightarrow> jsnum" where
  "newMatch inp s =
     fst (getMatch (imageData s) (maxDifference s) (stageData inp) (graphImage inp))"


section \<open>The pixel difference as the specification words it\<close>

text \<open>
  The specification describes the score without the loop: for every pixel the sum of
  the absolute differences of red, green and blue, summed over all pixels.
  \<open>channelDiff\<close> is the absolute difference of the bytes at one index, \<open>pixelDiff\<close>
  the sum for pixel \<open>p\<close>, whose channels are at \<open>4 * p\<close>, \<open>4 * p + 1\<close> and
  \<open>4 * p + 2\<close>, and \<open>pixelDifference\<close> the total. \<open>alphaByte d\<close> is the integer
  nearest to \<open>(765 - d) / 3\<close>, as a byte.
\<close>

definition channelDiff :: "byte list \<Rightarrow> byte list \<Rightarrow> nat \<Rightarrow> nat" where
  "channelDiff a b i = nat \<bar>int (unat (a ! i)) - int (unat (b ! i))\<bar>"

definition pixelDiff :: "byte list \<Rightarrow> byte list \<Rightarrow> nat \<Rightarrow> nat" where
  "pixelDiff a b p =
     channelDiff a b (4 * p) + channelDiff a b (4 * p + 1) + channelDiff a b (4 * p + 2)"

definition pixelDifference :: "byte list \<Rightarrow> byte list \<Rightarrow> nat" where
  "pixelDifference a b = (\<Sum>p\<leftarrow>[0..<length b div 4]. pixelDiff a b p)"

definition alphaByte :: "nat \<Rightarrow> byte" where
  "alphaByte d = word_of_nat ((766 - d) div 3)"

section \<open>A small run\<close>

text \<open>
  A target of two pixels (an image of width 2 and height 1), three triangles, and
  three frames the canvas may return: one close to the target, one far from it and
  one of the wrong length.
\<close>

definition targetData :: "byte list" where
  "targetData = [10, 20, 30, 255, 0, 0, 0, 0]"

definition nearData :: "byte list" where
  "nearData = [13, 18, 30, 0, 255, 0, 1, 9]"

definition farData :: "byte list" where
  "farData = [255, 255, 255, 255, 255, 255, 255, 255]"

definition shortData :: "byte list" where
  "shortData = [10, 20, 30, 255]"

definition triangle :: "nat \<Rightarrow> Polygon" where
  "triangle k = \<lparr>points = [(0, 0), (1, 0), (k, 0)], colour = (k, k, k, 1), stashed = None\<rparr>"

definition startFractal :: "Polygon Fractal" where
  "startFractal = main triangle 2 1 (getImageData targetData (newFractal 3 3))"

definition frame :: "byte list \<Rightarrow> Mutation FrameInput" where
  "frame stage =
     \<lparr>random = ReplaceColour (7, 7, 7, 1), stageData = stage, graphImage = replicate 8 0\<rparr>"

section \<open>Properties of the scorer\<close>

lemma floor_third: "\<lfloor>real k / 3\<rfloor> = int (k div 3)"
  using floor_divide_of_nat_eq [of k 3, where ?'a = real] by simp

lemma roundHalfEven_third: "roundHalfEven (real k / 3) = int ((k + 1) div 3)"
proof -
  have k: "k = 3 * (k div 3) + k mod 3" by simp
  have r: "real k = 3 * real (k div 3) + real (k mod 3)"
    by (metis k of_nat_add of_nat_mult of_nat_numeral)
  have m: "k mod 3 = 0 \<or> k mod 3 = 1 \<or> k mod 3 = 2" by linarith
  have d: "(k + 1) div 3 = (if k mod 3 = 2 then k div 3 + 1 else k div 3)"
    using m by presburger
  show ?thesis
    unfolding roundHalfEven_def Let_def floor_third d
    using m r by (auto simp: field_simps)
qed

lemma channel_abs:
  "i < length a \<Longrightarrow> i < length b \<Longrightarrow>
   js_abs (js_sub (byteAt a i) (byteAt b i)) = Fin (real (channelDiff a b i))"
  by (simp add: byteAt_def js_sub_def channelDiff_def)

lemma channelDiff_le: "channelDiff a b i \<le> 255"
proof -
  have "unat (a ! i) < 256" "unat (b ! i) < 256"
    using unsigned_less [of "a ! i"] unsigned_less [of "b ! i"] by simp_all
  then show ?thesis unfolding channelDiff_def by linarith
qed

lemma pixelDiff_le: "pixelDiff a b p \<le> 765"
  using channelDiff_le [of a b "4 * p"] channelDiff_le [of a b "4 * p + 1"]
    channelDiff_le [of a b "4 * p + 2"]
  by (simp add: pixelDiff_def)

lemma ToUint8Clamp_third:
  assumes "k \<le> 765"
  shows "ToUint8Clamp (Fin (real k / 3)) = word_of_nat ((k + 1) div 3)"
proof (cases "k = 0")
  case True
  then show ?thesis by simp
next
  case False
  show ?thesis
  proof (cases "k = 765")
    case True
    then show ?thesis by simp
  next
    case False
    with assms have "real k < 765" by simp
    with \<open>k \<noteq> 0\<close> show ?thesis
      by (simp add: roundHalfEven_third)
  qed
qed

lemma alpha_expr:
  assumes "r + g + b \<le> (765::nat)"
  shows "ToUint8Clamp (js_mul (js_div (Fin 1) (Fin 3))
           (js_add (js_sub (js_sub (js_neg (Fin (real r))) (Fin (real g))) (Fin (real b))) (Fin 765)))
         = alphaByte (r + g + b)"
proof -
  have e: "(1 / 3) * (- real r - real g - real b + 765) = real (765 - (r + g + b)) / 3"
    using assms by (simp add: of_nat_diff)
  have "js_mul (js_div (Fin 1) (Fin 3))
           (js_add (js_sub (js_sub (js_neg (Fin (real r))) (Fin (real g))) (Fin (real b))) (Fin 765))
        = Fin ((1 / 3) * (- real r - real g - real b + 765))"
    by (simp add: js_sub_def)
  also have "\<dots> = Fin (real (765 - (r + g + b)) / 3)"
    by (simp only: e)
  finally have "ToUint8Clamp (js_mul (js_div (Fin 1) (Fin 3))
           (js_add (js_sub (js_sub (js_neg (Fin (real r))) (Fin (real g))) (Fin (real b))) (Fin 765)))
        = word_of_nat ((765 - (r + g + b) + 1) div 3)"
    using ToUint8Clamp_third [of "765 - (r + g + b)"] by simp
  moreover have "765 - (r + g + b) + 1 = 766 - (r + g + b)"
    using assms by simp
  ultimately show ?thesis
    by (simp only: alphaByte_def)
qed

lemma differenceLoop_step:
  assumes "4 * p + 3 < length b" and "length a = length b"
  shows "differenceLoop a b (4 * p) (Fin acc) dat =
         differenceLoop a b (4 * p + 4) (Fin (acc + real (pixelDiff a b p)))
           (dat[4 * p := 0, 4 * p + 1 := 0, 4 * p + 2 := 0, 4 * p + 3 := alphaByte (pixelDiff a b p)])"
proof -
  have c0: "js_abs (js_sub (byteAt a (4 * p)) (byteAt b (4 * p))) = Fin (real (channelDiff a b (4 * p)))"
    using assms by (intro channel_abs) simp_all
  have c1: "js_abs (js_sub (byteAt a (4 * p + 1)) (byteAt b (4 * p + 1))) = Fin (real (channelDiff a b (4 * p + 1)))"
    using assms by (intro channel_abs) simp_all
  have c2: "js_abs (js_sub (byteAt a (4 * p + 2)) (byteAt b (4 * p + 2))) = Fin (real (channelDiff a b (4 * p + 2)))"
    using assms by (intro channel_abs) simp_all
  have le: "channelDiff a b (4 * p) + channelDiff a b (4 * p + 1) + channelDiff a b (4 * p + 2) \<le> 765"
    using pixelDiff_le [of a b p] by (simp add: pixelDiff_def)
  have lt: "4 * p < length b" using assms by simp
  have sum: "js_add (Fin acc) (js_add (js_add (Fin (real (channelDiff a b (4 * p))))
                 (Fin (real (channelDiff a b (4 * p + 1))))) (Fin (real (channelDiff a b (4 * p + 2)))))
             = Fin (acc + real (channelDiff a b (4 * p) + channelDiff a b (4 * p + 1) + channelDiff a b (4 * p + 2)))"
    by simp
  show ?thesis
    by (subst differenceLoop.simps)
       (simp only: lt if_True Let_def c0 c1 c2 alpha_expr [OF le] sum pixelDiff_def)
qed

lemma differenceLoop_stop:
  "length b \<le> i \<Longrightarrow> differenceLoop a b i d dat = (d, dat)"
  by (subst differenceLoop.simps) simp

lemma differenceLoop_length: "length (snd (differenceLoop a b i d dat)) = length dat"
proof (induction a b i d dat rule: differenceLoop.induct)
  case (1 a b i d dat)
  show ?case
  proof (cases "i < length b")
    case True
    then show ?thesis
      using "1.IH" [OF True refl refl refl refl refl refl refl]
      by (subst differenceLoop.simps) (simp add: Let_def)
  next
    case False
    then show ?thesis by (simp add: differenceLoop_stop)
  qed
qed

lemma differenceLoop_below:
  "j < i \<Longrightarrow> snd (differenceLoop a b i d dat) ! j = dat ! j"
proof (induction a b i d dat rule: differenceLoop.induct)
  case (1 a b i d dat)
  show ?case
  proof (cases "i < length b")
    case True
    have "j < i + 4" using "1.prems" by simp
    then show ?thesis
      using "1.IH" [OF True refl refl refl refl refl refl refl] "1.prems"
      by (subst differenceLoop.simps) (simp add: Let_def True)
  next
    case False
    then show ?thesis by (simp add: differenceLoop_stop)
  qed
qed

lemma differenceLoop_sum:
  assumes "length a = 4 * n" and "length b = 4 * n" and "k \<le> n"
  shows "fst (differenceLoop a b (4 * k) (Fin acc) dat) =
         Fin (acc + real (\<Sum>p\<leftarrow>[k..<n]. pixelDiff a b p))"
  using assms(3)
proof (induction "n - k" arbitrary: k acc dat)
  case 0
  then have "k = n" by simp
  then show ?case using assms by (simp add: differenceLoop_stop)
next
  case (Suc m)
  then have lt: "k < n" and m: "m = n - Suc k" and le: "Suc k \<le> n" by simp_all
  have step: "differenceLoop a b (4 * k) (Fin acc) dat =
        differenceLoop a b (4 * Suc k) (Fin (acc + real (pixelDiff a b k)))
          (dat[4 * k := 0, 4 * k + 1 := 0, 4 * k + 2 := 0, 4 * k + 3 := alphaByte (pixelDiff a b k)])"
    unfolding mult_Suc_right [of 4 k] add.commute [of 4 "4 * k"]
    using lt assms(1,2) by (intro differenceLoop_step) simp_all
  show ?case
    unfolding step Suc.hyps(1) [OF m le]
    using lt by (simp add: upt_conv_Cons)
qed

lemma differenceLoop_pixel:
  assumes "length a = 4 * n" and "length b = 4 * n"
    and "length dat = 4 * n" and "k \<le> p" and "p < n" and "c < 4"
  shows "snd (differenceLoop a b (4 * k) (Fin acc) dat) ! (4 * p + c) =
         (if c = 3 then alphaByte (pixelDiff a b p) else 0)"
  using assms(3,4)
proof (induction "n - k" arbitrary: k acc dat)
  case 0
  then show ?case using assms(5) by simp
next
  case (Suc m)
  then have lt: "k < n" and m: "m = n - Suc k" by simp_all
  let ?dat = "dat[4 * k := 0, 4 * k + 1 := 0, 4 * k + 2 := 0, 4 * k + 3 := alphaByte (pixelDiff a b k)]"
  have step: "differenceLoop a b (4 * k) (Fin acc) dat =
        differenceLoop a b (4 * Suc k) (Fin (acc + real (pixelDiff a b k))) ?dat"
    unfolding mult_Suc_right [of 4 k] add.commute [of 4 "4 * k"]
    using lt assms(1,2) by (intro differenceLoop_step) simp_all
  have len: "length ?dat = 4 * n" using Suc.prems by simp
  show ?case
  proof (cases "p = k")
    case True
    have "4 * p + c < 4 * Suc k" using True assms(6) by simp
    then have "snd (differenceLoop a b (4 * Suc k) (Fin (acc + real (pixelDiff a b k))) ?dat) ! (4 * p + c)
               = ?dat ! (4 * p + c)"
      by (rule differenceLoop_below)
    moreover have "c = 0 \<or> c = 1 \<or> c = 2 \<or> c = 3" using assms(6) by linarith
    moreover have "4 * k + 3 < length dat" using Suc.prems lt by simp
    ultimately show ?thesis
      unfolding step using True by (auto simp: nth_list_update)
  next
    case False
    then have "Suc k \<le> p" using Suc.prems by simp
    from Suc.hyps(1) [OF m len this] show ?thesis
      unfolding step .
  qed
qed

lemma calculateDifference_value:
  assumes "length a = length b" and "length b mod 4 = 0"
  shows "fst (calculateDifference a b g) = Some (Fin (real (pixelDifference a b)))"
proof -
  have b: "length b = 4 * (length b div 4)" using assms(2) by presburger
  have a: "length a = 4 * (length b div 4)" using assms(1) b by simp
  have "fst (differenceLoop a b (4 * 0) (Fin 0) g) =
        Fin (0 + real (\<Sum>p\<leftarrow>[0..<length b div 4]. pixelDiff a b p))"
    using a b by (intro differenceLoop_sum) simp_all
  then show ?thesis
    using assms(1) by (simp add: calculateDifference_def pixelDifference_def split_beta)
qed

section \<open>Properties of one round\<close>

lemma js_gt_irrefl: "\<not> js_gt a a"
  by (cases a) simp_all

lemma js_gt_NaN: "\<not> js_gt NaN a"
  by simp

lemma js_gt_not_NaN: "js_gt a b \<Longrightarrow> a \<noteq> NaN"
  by (cases a) simp_all

lemma js_gt_ge: "js_gt a b \<Longrightarrow> js_ge a b"
  by (cases a; cases b) simp_all

lemma js_ge_refl: "a \<noteq> NaN \<Longrightarrow> js_ge a a"
  by (cases a) simp_all

lemma drawFrame_throws:
  "\<not> nextMutable s < length (polygons s) \<Longrightarrow> drawFrame P inp s = Inl TypeError"
  by (simp add: drawFrame_def)

lemma afterFrame_throws:
  "\<not> nextMutable s < length (polygons s) \<Longrightarrow> afterFrame P inp s = s"
  by (simp add: afterFrame_def drawFrame_def)

lemma drawFrame_returns:
  "nextMutable s < length (polygons s) \<Longrightarrow> drawFrame P inp s = Inr (afterFrame P inp s)"
  by (simp add: afterFrame_def drawFrame_def Let_def split_beta)

lemma afterFrame_accept:
  assumes "nextMutable s < length (polygons s)" and "js_gt (newMatch inp s) (lastMatch s)"
  shows "lastMatch (afterFrame P inp s) = newMatch inp s"
    and "breakthroughs (afterFrame P inp s) = breakthroughs s + 1"
    and "polygons (afterFrame P inp s) = (polygons s)[nextMutable s := mutated P inp s]"
  using assms
  by (simp_all add: afterFrame_def drawFrame_def Let_def split_beta setStat_def newMatch_def
      mutated_def split: option.splits)

lemma afterFrame_reject:
  assumes "nextMutable s < length (polygons s)" and "\<not> js_gt (newMatch inp s) (lastMatch s)"
  shows "lastMatch (afterFrame P inp s) = lastMatch s"
    and "breakthroughs (afterFrame P inp s) = breakthroughs s"
    and "polygons (afterFrame P inp s) = (polygons s)[nextMutable s := pop P (mutated P inp s)]"
  using assms
  by (simp_all add: afterFrame_def drawFrame_def Let_def split_beta setStat_def newMatch_def
      mutated_def split: option.splits)

lemma afterFrame_counters:
  assumes "nextMutable s < length (polygons s)"
  shows "mutations (afterFrame P inp s) = mutations s + 1"
    and "nextMutable (afterFrame P inp s) =
           (if nextMutable s + 1 \<ge> POLYGON_COUNT s then 0 else nextMutable s + 1)"
    and "stats (afterFrame P inp s) Mutations = Some (ShownNumber (mutations s))"
  using assms
  by (simp_all add: afterFrame_def drawFrame_def Let_def split_beta setStat_def
      split: option.splits)

lemma afterFrame_constant:
  shows "POLYGON_COUNT (afterFrame P inp s) = POLYGON_COUNT s"
    and "length (polygons (afterFrame P inp s)) = length (polygons s)"
    and "maxDifference (afterFrame P inp s) = maxDifference s"
    and "imageData (afterFrame P inp s) = imageData s"
    and "width (afterFrame P inp s) = width s"
    and "height (afterFrame P inp s) = height s"
  by (simp_all add: afterFrame_def drawFrame_def Let_def split_beta setStat_def
      split: option.splits)

section \<open>Properties of a run\<close>

lemma afterFrame_lastMatch:
  assumes "lastMatch s \<noteq> NaN"
  shows "js_ge (lastMatch (afterFrame P inp s)) (lastMatch s) \<and> lastMatch (afterFrame P inp s) \<noteq> NaN"
proof (cases "nextMutable s < length (polygons s)")
  case False
  then show ?thesis using assms by (simp add: afterFrame_throws js_ge_refl)
next
  case True
  show ?thesis
  proof (cases "js_gt (newMatch inp s) (lastMatch s)")
    case True
    with \<open>nextMutable s < length (polygons s)\<close> show ?thesis
      by (simp add: afterFrame_accept(1) js_gt_ge js_gt_not_NaN)
  next
    case False
    with \<open>nextMutable s < length (polygons s)\<close> assms show ?thesis
      by (simp add: afterFrame_reject(1) js_ge_refl)
  qed
qed

lemma run_length: "length (run P s inps) = length inps"
  by (induction inps arbitrary: s) simp_all

lemma run_lastMatch:
  assumes "lastMatch s \<noteq> NaN" and "Suc i < length (s # run P s inps)"
  shows "js_ge (lastMatch ((s # run P s inps) ! Suc i)) (lastMatch ((s # run P s inps) ! i))"
  using assms
proof (induction inps arbitrary: s i)
  case Nil
  then show ?case by simp
next
  case (Cons inp inps)
  show ?case
  proof (cases i)
    case 0
    then show ?thesis using afterFrame_lastMatch [OF Cons.prems(1), of P inp] by simp
  next
    case (Suc j)
    have "lastMatch (afterFrame P inp s) \<noteq> NaN"
      using afterFrame_lastMatch [OF Cons.prems(1), of P inp] by simp
    moreover have "Suc j < length (afterFrame P inp s # run P (afterFrame P inp s) inps)"
      using Cons.prems(2) Suc by simp
    ultimately show ?thesis
      using Cons.IH [of "afterFrame P inp s" j] Suc by simp
  qed
qed

lemma main_fields:
  shows "lastMatch (main gen w h (getImageData img (newFractal n v))) = Fin 0"
    and "maxDifference (main gen w h s) = Fin (real (w * h * 3 * 255))"
    and "length (polygons (main gen w h s)) = POLYGON_COUNT s"
    and "POLYGON_COUNT (main gen w h s) = POLYGON_COUNT s"
    and "nextMutable (main gen w h (getImageData img (newFractal n v))) = 0"
    and "imageData (main gen w h (getImageData img s)) = img"
  by (simp_all add: main_def configureDom_def getImageData_def newFractal_def
      generateInitialPolygons_def Let_def)



section \<open>Further properties of the scorer\<close>

lemma channelDiff_same: "channelDiff a a i = 0"
  by (simp add: channelDiff_def)

lemma pixelDifference_same: "pixelDifference a a = 0"
  by (simp add: pixelDifference_def pixelDiff_def channelDiff_same)

lemma getMatch_finite:
  assumes "fst (calculateDifference a b g) = Some (Fin d)" and "m \<noteq> 0"
  shows "fst (getMatch a (Fin m) b g) = Fin (100 * (1 - d / m))"
  using assms by (simp add: getMatch_def split_beta js_sub_def)

lemma channelDiff_extremes:
  assumes "a ! i = 0 \<and> b ! i = 255 \<or> a ! i = 255 \<and> b ! i = 0"
  shows "channelDiff a b i = 255"
  using assms by (auto simp: channelDiff_def)

lemma sum_list_const: "(\<And>x. x \<in> set xs \<Longrightarrow> f x = (c::nat)) \<Longrightarrow> (\<Sum>x\<leftarrow>xs. f x) = length xs * c"
  by (induction xs) simp_all

lemma pixelDifference_extremes:
  assumes "length b = 4 * n"
    and "\<And>i. i < 4 * n \<Longrightarrow> i mod 4 \<noteq> 3 \<Longrightarrow>
           a ! i = 0 \<and> b ! i = 255 \<or> a ! i = 255 \<and> b ! i = 0"
  shows "pixelDifference a b = n * 3 * 255"
proof -
  have "pixelDiff a b p = 765" if "p < n" for p
  proof -
    have "4 * p < 4 * n" "4 * p + 1 < 4 * n" "4 * p + 2 < 4 * n" using that by simp_all
    moreover have "(4 * p) mod 4 \<noteq> 3" "(4 * p + 1) mod 4 \<noteq> 3" "(4 * p + 2) mod 4 \<noteq> 3"
      by presburger+
    ultimately have "channelDiff a b (4 * p) = 255" "channelDiff a b (4 * p + 1) = 255"
      "channelDiff a b (4 * p + 2) = 255"
      using assms(2) by (intro channelDiff_extremes; blast)+
    then show ?thesis by (simp add: pixelDiff_def)
  qed
  then have "(\<Sum>p\<leftarrow>[0..<n]. pixelDiff a b p) = length [0..<n] * 765"
    by (intro sum_list_const) simp
  then show ?thesis using assms(1) by (simp add: pixelDifference_def)
qed

lemma calculateDifference_dat:
  assumes "length a = length b" and "length b mod 4 = 0" and "length g = length b"
    and "p < length b div 4" and "c < 4"
  shows "\<exists>dat. snd (calculateDifference a b g) = Some dat \<and> length dat = length b \<and>
           dat ! (4 * p + c) = (if c = 3 then alphaByte (pixelDiff a b p) else 0)"
proof -
  have b: "length b = 4 * (length b div 4)" using assms(2) by presburger
  have a: "length a = 4 * (length b div 4)" using assms(1) b by simp
  have g: "length g = 4 * (length b div 4)" using assms(3) b by simp
  have "snd (differenceLoop a b (4 * 0) (Fin 0) g) ! (4 * p + c) =
        (if c = 3 then alphaByte (pixelDiff a b p) else 0)"
    using a b g assms(4,5) by (intro differenceLoop_pixel) simp_all
  then show ?thesis
    using assms(1,3) by (simp add: calculateDifference_def split_beta differenceLoop_length)
qed

lemma alphaByte_unat: "d \<le> 765 \<Longrightarrow> unat (alphaByte d) = (766 - d) div 3"
proof -
  assume "d \<le> 765"
  have "(766 - d) div 3 < 256" by simp
  then show ?thesis
    unfolding alphaByte_def by (simp add: unat_of_nat)
qed

lemma nearest_third:
  assumes "d \<le> (765::nat)"
  shows "\<bar>real ((766 - d) div 3) - (765 - real d) / 3\<bar> \<le> 1 / 3"
proof -
  define k where "k = 765 - d"
  have k: "766 - d = k + 1" "765 - real d = real k" using assms by (simp_all add: k_def)
  have "k mod 3 = 0 \<or> k mod 3 = 1 \<or> k mod 3 = 2" by linarith
  moreover have "real k = 3 * real (k div 3) + real (k mod 3)"
    by (metis mult_div_mod_eq of_nat_add of_nat_mult of_nat_numeral)
  moreover have "(k + 1) div 3 = (if k mod 3 = 2 then k div 3 + 1 else k div 3)"
    by presburger
  ultimately show ?thesis unfolding k by (auto simp: field_simps)
qed

section \<open>Rounds with buffers of different lengths\<close>

lemma calculateDifference_mismatch:
  "length a \<noteq> length b \<Longrightarrow> calculateDifference a b g = (None, None)"
  by (simp add: calculateDifference_def)

lemma newMatch_mismatch:
  "length (imageData s) \<noteq> length (stageData inp) \<Longrightarrow> newMatch inp s = NaN"
  by (simp add: newMatch_def getMatch_def calculateDifference_mismatch js_sub_def)

lemma afterFrame_graph_mismatch:
  "length (imageData s) \<noteq> length (stageData inp) \<Longrightarrow> graph (afterFrame P inp s) = graph s"
  by (simp add: afterFrame_def drawFrame_def Let_def split_beta setStat_def getMatch_def
      calculateDifference_mismatch)

lemma afterFrame_cursor_valid:
  assumes "nextMutable s < length (polygons s)" and "length (polygons s) = POLYGON_COUNT s"
  shows "nextMutable (afterFrame P inp s) < length (polygons (afterFrame P inp s))"
  using assms afterFrame_counters(2) [OF assms(1), of P inp]
  by (simp add: afterFrame_constant split: if_splits)

lemma run_maxDifference:
  "s' \<in> set (s # run P s inps) \<Longrightarrow> maxDifference s' = maxDifference s \<and> imageData s' = imageData s"
proof (induction inps arbitrary: s)
  case Nil
  then show ?case by simp
next
  case (Cons inp inps)
  show ?case
  proof (cases "s' = s")
    case True
    then show ?thesis by simp
  next
    case False
    then have "s' \<in> set (afterFrame P inp s # run P (afterFrame P inp s) inps)"
      using Cons.prems by simp
    then have "maxDifference s' = maxDifference (afterFrame P inp s) \<and>
               imageData s' = imageData (afterFrame P inp s)"
      by (rule Cons.IH)
    then show ?thesis by (simp only: afterFrame_constant)
  qed
qed

section \<open>The small run, evaluated\<close>

lemma startFractal_fields:
  shows "nextMutable startFractal = 0"
    and "length (polygons startFractal) = 3"
    and "POLYGON_COUNT startFractal = 3"
    and "imageData startFractal = targetData"
    and "maxDifference startFractal = Fin 1530"
    and "lastMatch startFractal = Fin 0"
    and "breakthroughs startFractal = 0"
    and "mutations startFractal = 0"
  by (simp_all add: startFractal_def main_def configureDom_def getImageData_def newFractal_def
      generateInitialPolygons_def Let_def)

lemma frame_fields:
  shows "stageData (frame d) = d" and "graphImage (frame d) = replicate 8 0"
  by (simp_all add: frame_def)

lemma getMatch_near: "getMatch targetData (Fin 1530) nearData (replicate 8 0) =
    (Fin (1410 / 17), Some [0, 0, 0, 253, 0, 0, 0, 170])"
  by code_simp

lemma getMatch_far: "fst (getMatch targetData (Fin 1530) farData (replicate 8 0)) = Fin (200 / 51)"
  by code_simp

lemma getMatch_short: "getMatch targetData (Fin 1530) shortData (replicate 8 0) = (NaN, None)"
  by code_simp

lemma newMatch_start:
  shows "newMatch (frame nearData) startFractal = Fin (1410 / 17)"
    and "newMatch (frame farData) startFractal = Fin (200 / 51)"
    and "newMatch (frame shortData) startFractal = NaN"
  by (simp_all add: newMatch_def startFractal_fields frame_fields getMatch_near getMatch_far
      getMatch_short)

section \<open>The claims\<close>

text \<open>
  Claim C1. Along every sequence of rounds that the optimizer runs from the state
  \<open>main\<close> leaves, whatever the canvas returns and whatever \<open>mutate\<close> draws in each
  round, \<open>lastMatch\<close> never decreases: its value after round \<open>i + 1\<close> is greater than
  or equal to its value after round \<open>i\<close> (index \<open>0\<close> of the list being the state before
  the first round). A round whose match is \<open>NaN\<close> is rejected, so \<open>lastMatch\<close> is never
  \<open>NaN\<close> and the comparison is that of numbers.
\<close>

theorem lastMatch_monotone:
  assumes "s0 = main gen w h (getImageData img (newFractal n v))"
    and "Suc i < length (s0 # run P s0 inps)"
  shows "js_ge (lastMatch ((s0 # run P s0 inps) ! Suc i)) (lastMatch ((s0 # run P s0 inps) ! i))"
proof -
  have "lastMatch s0 \<noteq> NaN"
    unfolding assms(1) by (simp add: main_fields(1))
  then show ?thesis using assms(2) by (rule run_lastMatch)
qed

text \<open>
  The small run: the first two rounds of the three triangles, the second against a
  canvas far from the target.
\<close>

theorem lastMatch_monotone_witness:
  "startFractal = main triangle 2 1 (getImageData targetData (newFractal 3 3)) \<and>
   Suc 1 < length (startFractal # run polygonOps startFractal [frame nearData, frame farData]) \<and>
   js_ge (lastMatch ((startFractal # run polygonOps startFractal [frame nearData, frame farData]) ! Suc 1))
         (lastMatch ((startFractal # run polygonOps startFractal [frame nearData, frame farData]) ! 1))"
proof -
  have l: "Suc 1 < length (startFractal # run polygonOps startFractal [frame nearData, frame farData])"
    by simp
  show ?thesis
    using lastMatch_monotone [OF startFractal_def l] l startFractal_def by simp
qed

text \<open>
  Claim C2 says that buffers of different lengths make the difference computation fail
  with an error that aborts the run. \<open>calculateDifference\<close> has no such error: the
  guard of lines 155 to 158 returns without a value (the console message it writes
  first is not part of the model). On the small run, a canvas
  of one pixel against the target of two gives no value and no error, and the round
  completes: the counter of mutations and the cursor have moved on.
\<close>

theorem mismatch_abort_counterexample:
  "length (imageData startFractal) \<noteq> length (stageData (frame shortData)) \<and>
   calculateDifference (imageData startFractal) (stageData (frame shortData))
     (graphImage (frame shortData)) = (None, None) \<and>
   drawFrame polygonOps (frame shortData) startFractal
     = Inr (afterFrame polygonOps (frame shortData) startFractal) \<and>
   mutations (afterFrame polygonOps (frame shortData) startFractal) = 1 \<and>
   nextMutable (afterFrame polygonOps (frame shortData) startFractal) = 1"
proof -
  have v: "nextMutable startFractal < length (polygons startFractal)"
    by (simp add: startFractal_fields)
  have m: "length (imageData startFractal) \<noteq> length (stageData (frame shortData))"
    by (simp add: startFractal_fields frame_fields targetData_def shortData_def)
  show ?thesis
    using m calculateDifference_mismatch [OF m, of "graphImage (frame shortData)"]
      drawFrame_returns [OF v, of polygonOps "frame shortData"]
      afterFrame_counters(1,2) [OF v, of polygonOps "frame shortData"]
    by (simp add: startFractal_fields)
qed

text \<open>
  Claim C2, amended. When the target and the rendered buffer differ in length, the
  difference computation raises no error: it returns no value and puts nothing on the
  graph. The round it is part of runs to its end, and so does the round after it,
  whatever that one receives: the run is not aborted. (The cursor selects a polygon and
  the population has \<open>POLYGON_COUNT\<close> polygons, as in every state \<open>main\<close> and the
  rounds produce.)
\<close>

theorem mismatch_no_error:
  assumes "length (imageData s) \<noteq> length (stageData inp)"
    and "nextMutable s < length (polygons s)"
    and "length (polygons s) = POLYGON_COUNT s"
  shows "calculateDifference (imageData s) (stageData inp) (graphImage inp) = (None, None) \<and>
         drawFrame P inp s = Inr (afterFrame P inp s) \<and>
         graph (afterFrame P inp s) = graph s \<and>
         drawFrame P inp' (afterFrame P inp s) = Inr (afterFrame P inp' (afterFrame P inp s))"
  using calculateDifference_mismatch [OF assms(1), of "graphImage inp"]
    drawFrame_returns [OF assms(2), of P inp]
    afterFrame_graph_mismatch [OF assms(1), of P]
    drawFrame_returns [OF afterFrame_cursor_valid [OF assms(2,3), of P inp], of P inp']
  by simp

text \<open>The small run, with the canvas of one pixel in the first round.\<close>

theorem mismatch_no_error_witness:
  "length (imageData startFractal) \<noteq> length (stageData (frame shortData)) \<and>
   nextMutable startFractal < length (polygons startFractal) \<and>
   length (polygons startFractal) = POLYGON_COUNT startFractal \<and>
   calculateDifference (imageData startFractal) (stageData (frame shortData))
     (graphImage (frame shortData)) = (None, None) \<and>
   drawFrame polygonOps (frame shortData) startFractal
     = Inr (afterFrame polygonOps (frame shortData) startFractal) \<and>
   graph (afterFrame polygonOps (frame shortData) startFractal) = graph startFractal \<and>
   drawFrame polygonOps (frame nearData) (afterFrame polygonOps (frame shortData) startFractal)
     = Inr (afterFrame polygonOps (frame nearData)
              (afterFrame polygonOps (frame shortData) startFractal))"
proof -
  have m: "length (imageData startFractal) \<noteq> length (stageData (frame shortData))"
    by (simp add: startFractal_fields frame_fields targetData_def shortData_def)
  have v: "nextMutable startFractal < length (polygons startFractal)"
    and c: "length (polygons startFractal) = POLYGON_COUNT startFractal"
    by (simp_all add: startFractal_fields)
  show ?thesis
    using mismatch_no_error [OF m v c, of polygonOps "frame nearData"] m v c by simp
qed

text \<open>
  Claim C3. A round whose cursor selects a polygon returns normally, and accepts the
  mutation exactly when the new match is greater than \<open>lastMatch\<close>. When it accepts,
  \<open>lastMatch\<close> becomes the new match, \<open>breakthroughs\<close> grows by one and the selected
  polygon stays mutated. Otherwise \<open>pop\<close> is applied to the selected polygon, and
  \<open>lastMatch\<close> and \<open>breakthroughs\<close> keep their values. A match equal to \<open>lastMatch\<close>
  is not greater than it, so it is rejected.
\<close>

theorem accept_reject_rule:
  assumes "nextMutable s < length (polygons s)"
  shows "drawFrame P inp s = Inr (afterFrame P inp s) \<and>
         (js_gt (newMatch inp s) (lastMatch s) \<longrightarrow>
            lastMatch (afterFrame P inp s) = newMatch inp s \<and>
            breakthroughs (afterFrame P inp s) = breakthroughs s + 1 \<and>
            polygons (afterFrame P inp s) = (polygons s)[nextMutable s := mutated P inp s]) \<and>
         (\<not> js_gt (newMatch inp s) (lastMatch s) \<longrightarrow>
            polygons (afterFrame P inp s) = (polygons s)[nextMutable s := pop P (mutated P inp s)] \<and>
            lastMatch (afterFrame P inp s) = lastMatch s \<and>
            breakthroughs (afterFrame P inp s) = breakthroughs s) \<and>
         \<not> js_gt (lastMatch s) (lastMatch s)"
  using drawFrame_returns [OF assms, of P inp] afterFrame_accept [OF assms, of inp P]
    afterFrame_reject [OF assms, of inp P] js_gt_irrefl [of "lastMatch s"]
  by simp

text \<open>
  The small run: the first round accepts a canvas close to the target, and rejects a
  canvas of the wrong length.
\<close>

theorem accept_reject_rule_witness:
  "nextMutable startFractal < length (polygons startFractal) \<and>
   js_gt (newMatch (frame nearData) startFractal) (lastMatch startFractal) \<and>
   lastMatch (afterFrame polygonOps (frame nearData) startFractal) = Fin (1410 / 17) \<and>
   breakthroughs (afterFrame polygonOps (frame nearData) startFractal) = 1 \<and>
   polygons (afterFrame polygonOps (frame nearData) startFractal)
     = (polygons startFractal)[0 := mutated polygonOps (frame nearData) startFractal] \<and>
   \<not> js_gt (newMatch (frame shortData) startFractal) (lastMatch startFractal) \<and>
   polygons (afterFrame polygonOps (frame shortData) startFractal)
     = (polygons startFractal)[0 := pop polygonOps (mutated polygonOps (frame shortData) startFractal)] \<and>
   lastMatch (afterFrame polygonOps (frame shortData) startFractal) = Fin 0 \<and>
   breakthroughs (afterFrame polygonOps (frame shortData) startFractal) = 0"
proof -
  have v: "nextMutable startFractal < length (polygons startFractal)"
    by (simp add: startFractal_fields)
  have a: "js_gt (newMatch (frame nearData) startFractal) (lastMatch startFractal)"
    by (simp add: newMatch_start startFractal_fields)
  have r: "\<not> js_gt (newMatch (frame shortData) startFractal) (lastMatch startFractal)"
    by (simp add: newMatch_start)
  show ?thesis
    using accept_reject_rule [OF v, of polygonOps "frame nearData"]
      accept_reject_rule [OF v, of polygonOps "frame shortData"] v a r
    by (simp add: newMatch_start startFractal_fields)
qed

text \<open>
  Claim C4. For two buffers of the same length, a multiple of four as for every
  buffer of RGBA pixels, \<open>calculateDifference\<close> returns the sum over all pixels of the
  absolute differences of red, green and blue: a non-negative integer, not normalized,
  in which no alpha byte takes part.
\<close>

theorem calculateDifference_sum:
  assumes "length target = length rendered" and "length rendered mod 4 = 0"
  shows "fst (calculateDifference target rendered g) =
         Some (Fin (real (pixelDifference target rendered)))"
  using assms by (rule calculateDifference_value)

text \<open>The target of two pixels against the canvas close to it: the difference is 261.\<close>

theorem calculateDifference_sum_witness:
  "length targetData = length nearData \<and> length nearData mod 4 = 0 \<and>
   fst (calculateDifference targetData nearData (replicate 8 0)) = Some (Fin 261)"
proof -
  have l: "length targetData = length nearData" and m: "length nearData mod 4 = 0"
    by (simp_all add: targetData_def nearData_def)
  have "pixelDifference targetData nearData = 261"
    by code_simp
  then show ?thesis
    using l m calculateDifference_sum [OF l m, of "replicate 8 0"] by simp
qed

text \<open>
  Claim C5. \<open>main\<close> sets \<open>maxDifference\<close> to \<open>width * height * 3 * 255\<close> and no round
  changes it: it has this value in every state of every run. In such a state, for an
  image that has pixels and a difference \<open>d\<close>, \<open>getMatch\<close> returns
  \<open>100 * (1 - d / maxDifference)\<close>.
\<close>

theorem match_percentage_formula:
  assumes "s0 = main gen w h (getImageData img (newFractal n v))"
    and "s \<in> set (s0 # run P s0 inps)"
  shows "maxDifference s = Fin (real (w * h * 3 * 255)) \<and>
         (0 < w * h \<and> fst (calculateDifference (imageData s) rendered g) = Some (Fin d) \<longrightarrow>
            fst (getMatch (imageData s) (maxDifference s) rendered g)
              = Fin (100 * (1 - d / real (w * h * 3 * 255))))"
proof -
  have "maxDifference s = maxDifference s0"
    using run_maxDifference [OF assms(2)] by simp
  then have m: "maxDifference s = Fin (real (w * h * 3 * 255))"
    unfolding assms(1) by (simp only: main_fields(2))
  have "fst (getMatch (imageData s) (Fin (real (w * h * 3 * 255))) rendered g)
          = Fin (100 * (1 - d / real (w * h * 3 * 255)))"
    if "0 < w * h" and "fst (calculateDifference (imageData s) rendered g) = Some (Fin d)"
    using that by (intro getMatch_finite) simp_all
  then show ?thesis using m by simp
qed

text \<open>The small run, after one round: a difference of 261 against 1530.\<close>

theorem match_percentage_formula_witness:
  "startFractal = main triangle 2 1 (getImageData targetData (newFractal 3 3)) \<and>
   afterFrame polygonOps (frame farData) startFractal
     \<in> set (startFractal # run polygonOps startFractal [frame farData]) \<and>
   (0::nat) < 2 * 1 \<and>
   fst (calculateDifference (imageData (afterFrame polygonOps (frame farData) startFractal))
          nearData (replicate 8 0)) = Some (Fin 261) \<and>
   maxDifference (afterFrame polygonOps (frame farData) startFractal)
     = Fin (real (2 * 1 * 3 * 255)) \<and>
   fst (getMatch (imageData (afterFrame polygonOps (frame farData) startFractal))
          (maxDifference (afterFrame polygonOps (frame farData) startFractal))
          nearData (replicate 8 0)) = Fin (100 * (1 - 261 / real (2 * 1 * 3 * 255)))"
proof -
  have r: "afterFrame polygonOps (frame farData) startFractal
             \<in> set (startFractal # run polygonOps startFractal [frame farData])"
    by simp
  have i: "imageData (afterFrame polygonOps (frame farData) startFractal) = targetData"
    by (simp add: afterFrame_constant startFractal_fields)
  have d: "fst (calculateDifference (imageData (afterFrame polygonOps (frame farData) startFractal))
          nearData (replicate 8 0)) = Some (Fin 261)"
    unfolding i by code_simp
  have p: "(0::nat) < 2 * 1" by simp
  note t = match_percentage_formula [OF startFractal_def r, of nearData "replicate 8 0" 261]
  note m = conjunct1 [OF t]
  note g = mp [OF conjunct2 [OF t] conjI [OF p d]]
  show ?thesis
    by (intro conjI) (rule startFractal_def r p d m g)+
qed



text \<open>
  Claim C7. The difference of a buffer of RGBA pixels against itself is \<open>0\<close>, and
  a difference of \<open>0\<close> gives a match of exactly \<open>100\<close> for every positive
  \<open>maxDifference\<close>.
\<close>

theorem identical_buffers_score:
  "(length buf mod 4 = 0 \<longrightarrow> fst (calculateDifference buf buf g) = Some (Fin 0)) \<and>
   (fst (calculateDifference a b g') = Some (Fin 0) \<and> 0 < m \<longrightarrow>
      fst (getMatch a (Fin m) b g') = Fin 100)"
proof (intro conjI impI)
  assume "length buf mod 4 = 0"
  then have "fst (calculateDifference buf buf g) = Some (Fin (real (pixelDifference buf buf)))"
    by (intro calculateDifference_value) simp_all
  then show "fst (calculateDifference buf buf g) = Some (Fin 0)"
    by (simp add: pixelDifference_same)
next
  assume "fst (calculateDifference a b g') = Some (Fin 0) \<and> 0 < m"
  then have "fst (getMatch a (Fin m) b g') = Fin (100 * (1 - 0 / m))"
    by (intro getMatch_finite) simp_all
  then show "fst (getMatch a (Fin m) b g') = Fin 100" by simp
qed

text \<open>A buffer of two pixels against itself, with the \<open>maxDifference\<close> of two pixels.\<close>

theorem identical_buffers_score_witness:
  "length nearData mod 4 = 0 \<and>
   fst (calculateDifference nearData nearData (replicate 8 0)) = Some (Fin 0) \<and>
   (0::real) < 1530 \<and>
   fst (getMatch nearData (Fin 1530) nearData (replicate 8 0)) = Fin 100"
proof -
  have l: "length nearData mod 4 = 0" by (simp add: nearData_def)
  have p: "(0::real) < 1530" by simp
  note t = identical_buffers_score [of nearData "replicate 8 0" nearData nearData "replicate 8 0" 1530]
  note d = mp [OF conjunct1 [OF t] l]
  note g = mp [OF conjunct2 [OF t] conjI [OF d p]]
  show ?thesis
    by (intro conjI) (rule l d p g)+
qed

text \<open>
  Claim C8. For two buffers of \<open>width * height\<close> pixels, red, green and blue all \<open>0\<close>
  in one and all \<open>255\<close> in the other, whatever the alpha bytes, the difference is
  \<open>width * height * 3 * 255\<close>, the value \<open>configureDom\<close> gives \<open>maxDifference\<close>, and
  the match is exactly \<open>0\<close>. The match is stated for an image that has pixels: an
  image without any never reaches the scorer, the browser's \<open>getImageData\<close> refusing
  a width or height of zero.
\<close>

theorem extreme_buffers_score:
  assumes "length a = 4 * (w * h)" and "length b = 4 * (w * h)"
    and "(\<forall>i<4 * (w * h). i mod 4 \<noteq> 3 \<longrightarrow> a ! i = 0 \<and> b ! i = 255) \<or>
         (\<forall>i<4 * (w * h). i mod 4 \<noteq> 3 \<longrightarrow> a ! i = 255 \<and> b ! i = 0)"
  shows "fst (calculateDifference a b g) = Some (Fin (real (w * h * 3 * 255))) \<and>
         maxDifference (configureDom w h s) = Fin (real (w * h * 3 * 255)) \<and>
         (0 < w * h \<longrightarrow> fst (getMatch a (maxDifference (configureDom w h s)) b g) = Fin 0)"
proof -
  have "pixelDifference a b = w * h * 3 * 255"
    using assms(3) by (intro pixelDifference_extremes [OF assms(2)]) blast
  moreover have "fst (calculateDifference a b g) = Some (Fin (real (pixelDifference a b)))"
    using assms(1,2) by (intro calculateDifference_value) simp_all
  ultimately have d: "fst (calculateDifference a b g) = Some (Fin (real (w * h * 3 * 255)))"
    by simp
  have m: "maxDifference (configureDom w h s) = Fin (real (w * h * 3 * 255))"
    by (simp add: configureDom_def)
  have "fst (getMatch a (Fin (real (w * h * 3 * 255))) b g)
          = Fin (100 * (1 - real (w * h * 3 * 255) / real (w * h * 3 * 255)))"
    if "0 < w * h"
    using d that by (intro getMatch_finite) simp_all
  then have "0 < w * h \<longrightarrow> fst (getMatch a (maxDifference (configureDom w h s)) b g) = Fin 0"
    unfolding m by simp
  with d m show ?thesis by simp
qed

text \<open>
  Two black pixels with alpha 7 and 9 against two white ones; the proof checks the six
  colour bytes of each buffer.
\<close>

theorem extreme_buffers_score_witness:
  "length [0, 0, 0, 7, 0, 0, 0, 9 :: byte] = 4 * (2 * 1) \<and> length farData = 4 * (2 * 1) \<and>
   fst (calculateDifference [0, 0, 0, 7, 0, 0, 0, 9] farData (replicate 8 0))
     = Some (Fin (real (2 * 1 * 3 * 255))) \<and>
   (0::nat) < 2 * 1 \<and>
   fst (getMatch [0, 0, 0, 7, 0, 0, 0, 9]
          (maxDifference (configureDom 2 1 (newFractal 3 3 :: Polygon Fractal)))
          farData (replicate 8 0)) = Fin 0"
proof -
  have la: "length [0, 0, 0, 7, 0, 0, 0, 9 :: byte] = 4 * (2 * 1)"
    and lb: "length farData = 4 * (2 * 1)"
    by (simp_all add: farData_def)
  have q: "\<forall>i<4 * (2 * 1). i mod 4 \<noteq> 3 \<longrightarrow>
             [0, 0, 0, 7, 0, 0, 0, 9 :: byte] ! i = 0 \<and> farData ! i = 255"
  proof (intro allI impI)
    fix i :: nat
    assume "i < 4 * (2 * 1)" and "i mod 4 \<noteq> 3"
    then have "i = 0 \<or> i = 1 \<or> i = 2 \<or> i = 4 \<or> i = 5 \<or> i = 6" by presburger
    then show "[0, 0, 0, 7, 0, 0, 0, 9 :: byte] ! i = 0 \<and> farData ! i = 255"
      by (auto simp: farData_def)
  qed
  have p: "(0::nat) < 2 * 1" by simp
  note t = extreme_buffers_score [OF la lb disjI1 [OF q], of "replicate 8 0"
      "newFractal 3 3 :: Polygon Fractal"]
  note d = conjunct1 [OF t]
  note g = mp [OF conjunct2 [OF conjunct2 [OF t]] p]
  show ?thesis
    by (intro conjI) (rule la lb d p g)+
qed

text \<open>
  Claim C9 gives the alpha byte of the graph as \<open>(765 - \<Delta>R - \<Delta>G - \<Delta>B) / 3\<close>. Line 175
  assigns this quotient to an element of a \<open>Uint8ClampedArray\<close>, which stores the
  nearest integer. For a pixel that differs by one in red the byte is \<open>255\<close>, which is
  neither the quotient \<open>764 / 3\<close> nor its integer part \<open>254\<close>.
\<close>

theorem visualization_alpha_counterexample:
  "snd (calculateDifference [1, 0, 0, 255] [0, 0, 0, 255] [0, 0, 0, 0]) = Some [0, 0, 0, 255] \<and>
   real (unat (([0, 0, 0, 255] :: byte list) ! 3))
     \<noteq> (765 - real (pixelDiff [1, 0, 0, 255] [0, 0, 0, 255] 0)) / 3 \<and>
   unat (([0, 0, 0, 255] :: byte list) ! 3)
     \<noteq> (765 - pixelDiff [1, 0, 0, 255] [0, 0, 0, 255] 0) div 3"
proof -
  have "snd (calculateDifference [1, 0, 0, 255] [0, 0, 0, 255] [0, 0, 0, 0]) = Some [0, 0, 0, 255]"
    by code_simp
  moreover have "pixelDiff [1, 0, 0, 255] [0, 0, 0, 255] 0 = 1"
    by (simp add: pixelDiff_def channelDiff_def)
  ultimately show ?thesis by simp
qed

text \<open>
  Claim C9, amended. For buffers of RGBA pixels of the same length, a graph of that
  length and every pixel \<open>p\<close>, the image put on the graph has red, green and blue \<open>0\<close>
  at \<open>p\<close>, and its alpha byte is \<open>(765 - \<Delta>R - \<Delta>G - \<Delta>B) / 3\<close> rounded to the nearest
  integer, where the deltas are the absolute differences of the channels of target and
  rendered buffer at \<open>p\<close>: the byte is \<open>(765 - \<Delta>R - \<Delta>G - \<Delta>B + 1) div 3\<close>, at most a
  third away from the quotient.
\<close>

theorem visualization_buffer:
  assumes "length target = length rendered" and "length rendered mod 4 = 0"
    and "length g = length rendered" and "p < length rendered div 4"
  shows "\<exists>dat. snd (calculateDifference target rendered g) = Some dat \<and>
           length dat = length rendered \<and>
           dat ! (4 * p) = 0 \<and> dat ! (4 * p + 1) = 0 \<and> dat ! (4 * p + 2) = 0 \<and>
           unat (dat ! (4 * p + 3)) = (765 - pixelDiff target rendered p + 1) div 3 \<and>
           \<bar>real (unat (dat ! (4 * p + 3))) - (765 - real (pixelDiff target rendered p)) / 3\<bar>
             \<le> 1 / 3"
proof -
  obtain dat where dat: "snd (calculateDifference target rendered g) = Some dat"
    and len: "length dat = length rendered"
    using calculateDifference_dat [OF assms, of 0] by auto
  have at: "dat ! (4 * p + c) = (if c = 3 then alphaByte (pixelDiff target rendered p) else 0)"
    if "c < 4" for c
    using calculateDifference_dat [OF assms that] dat by auto
  have le: "pixelDiff target rendered p \<le> 765" by (rule pixelDiff_le)
  have a: "unat (dat ! (4 * p + 3)) = (766 - pixelDiff target rendered p) div 3"
    using at [of 3] alphaByte_unat [OF le] by simp
  have e: "765 - pixelDiff target rendered p + 1 = 766 - pixelDiff target rendered p"
    using le by simp
  have "dat ! (4 * p) = 0" "dat ! (4 * p + 1) = 0" "dat ! (4 * p + 2) = 0"
    using at [of 0] at [of 1] at [of 2] by simp_all
  moreover have "unat (dat ! (4 * p + 3)) = (765 - pixelDiff target rendered p + 1) div 3"
    unfolding e by (rule a)
  moreover have "\<bar>real (unat (dat ! (4 * p + 3))) - (765 - real (pixelDiff target rendered p)) / 3\<bar>
             \<le> 1 / 3"
    unfolding a by (rule nearest_third [OF le])
  ultimately show ?thesis using dat len by blast
qed

text \<open>The second pixel of the target against the canvas close to it.\<close>

theorem visualization_buffer_witness:
  "length targetData = length nearData \<and> length nearData mod 4 = 0 \<and>
   length (replicate 8 (0::byte)) = length nearData \<and> 1 < length nearData div 4 \<and>
   (\<exists>dat. snd (calculateDifference targetData nearData (replicate 8 0)) = Some dat \<and>
           length dat = length nearData \<and>
           dat ! (4 * 1) = 0 \<and> dat ! (4 * 1 + 1) = 0 \<and> dat ! (4 * 1 + 2) = 0 \<and>
           unat (dat ! (4 * 1 + 3)) = (765 - pixelDiff targetData nearData 1 + 1) div 3 \<and>
           \<bar>real (unat (dat ! (4 * 1 + 3))) - (765 - real (pixelDiff targetData nearData 1)) / 3\<bar>
             \<le> 1 / 3)"
proof -
  have a: "length targetData = length nearData" and b: "length nearData mod 4 = 0"
    and c: "length (replicate 8 (0::byte)) = length nearData" and d: "1 < length nearData div 4"
    by (simp_all add: targetData_def nearData_def)
  show ?thesis
    by (intro conjI) (rule a b c d visualization_buffer [OF a b c d])+
qed

text \<open>
  Claim C10. When the target and the rendered buffer differ in length in a round whose
  cursor selects a polygon, \<open>calculateDifference\<close> returns no value, the match is
  \<open>NaN\<close> and is not greater than \<open>lastMatch\<close>, and the round returns normally as a
  rejection: \<open>pop\<close> is applied to the selected polygon, \<open>lastMatch\<close> and
  \<open>breakthroughs\<close> keep their values, \<open>mutations\<close> grows by one and the cursor moves
  on, so that the timer's next call runs the next round.
\<close>

theorem mismatch_round_rejected:
  assumes "length (imageData s) \<noteq> length (stageData inp)"
    and "nextMutable s < length (polygons s)"
  shows "calculateDifference (imageData s) (stageData inp) (graphImage inp) = (None, None) \<and>
         newMatch inp s = NaN \<and> \<not> js_gt (newMatch inp s) (lastMatch s) \<and>
         drawFrame P inp s = Inr (afterFrame P inp s) \<and>
         polygons (afterFrame P inp s) = (polygons s)[nextMutable s := pop P (mutated P inp s)] \<and>
         lastMatch (afterFrame P inp s) = lastMatch s \<and>
         breakthroughs (afterFrame P inp s) = breakthroughs s \<and>
         mutations (afterFrame P inp s) = mutations s + 1 \<and>
         nextMutable (afterFrame P inp s) =
           (if nextMutable s + 1 \<ge> POLYGON_COUNT s then 0 else nextMutable s + 1)"
proof -
  have n: "newMatch inp s = NaN" using assms(1) by (rule newMatch_mismatch)
  then have r: "\<not> js_gt (newMatch inp s) (lastMatch s)" by simp
  show ?thesis
    using calculateDifference_mismatch [OF assms(1), of "graphImage inp"] n r
      drawFrame_returns [OF assms(2), of P inp] afterFrame_reject [OF assms(2) r, of P]
      afterFrame_counters(1,2) [OF assms(2), of P inp]
    by simp
qed

text \<open>The small run, with the canvas of one pixel in the first round.\<close>

theorem mismatch_round_rejected_witness:
  "length (imageData startFractal) \<noteq> length (stageData (frame shortData)) \<and>
   nextMutable startFractal < length (polygons startFractal) \<and>
   newMatch (frame shortData) startFractal = NaN \<and>
   polygons (afterFrame polygonOps (frame shortData) startFractal)
     = (polygons startFractal)[nextMutable startFractal :=
          pop polygonOps (mutated polygonOps (frame shortData) startFractal)] \<and>
   lastMatch (afterFrame polygonOps (frame shortData) startFractal) = lastMatch startFractal \<and>
   breakthroughs (afterFrame polygonOps (frame shortData) startFractal)
     = breakthroughs startFractal \<and>
   mutations (afterFrame polygonOps (frame shortData) startFractal)
     = mutations startFractal + 1 \<and>
   nextMutable (afterFrame polygonOps (frame shortData) startFractal) = 1"
proof -
  have m: "length (imageData startFractal) \<noteq> length (stageData (frame shortData))"
    by (simp add: startFractal_fields frame_fields targetData_def shortData_def)
  have v: "nextMutable startFractal < length (polygons startFractal)"
    by (simp add: startFractal_fields)
  note t = mismatch_round_rejected [OF m v, of polygonOps]
  have c: "nextMutable (afterFrame polygonOps (frame shortData) startFractal) = 1"
    using t by (simp add: startFractal_fields)
  show ?thesis
    using t by (intro conjI) (rule m v c | simp)+
qed

end
